theory Spec2Isabelle
  imports Complex_Main
begin

section \<open>Python values of a decoded JSON payload\<close>

text \<open>
  The analyzer of \<^verbatim>\<open>tga_scoring_audit/analysis/scoring.py\<close> receives the decoded JSON of
  a tee sheet and inspects it with \<^verbatim>\<open>isinstance\<close>, \<^verbatim>\<open>in\<close>, subscription, \<^verbatim>\<open>==\<close>,
  \<^verbatim>\<open>int()\<close> and \<^verbatim>\<open>str()\<close>. The values are modelled as a datatype, one constructor
  for each Python type that \<^verbatim>\<open>json.loads\<close> produces. A float is a rational, an
  infinity or NaN (the decoder accepts \<^verbatim>\<open>Infinity\<close> and \<^verbatim>\<open>NaN\<close>). A dictionary is an
  association list with string keys, looked up with \<^const>\<open>map_of\<close>.
\<close>

datatype pyfloat = Finite rat | PosInf | NegInf | NaN

datatype pyval =
    PNone
  | PBool bool
  | PInt int
  | PFloat pyfloat
  | PStr string
  | PList "pyval list"
  | PDict "(string \<times> pyval) list"

text \<open>
  The exceptions the operations below raise, each with the message that \<^verbatim>\<open>str(e)\<close>
  gives. All of them are subclasses of \<^verbatim>\<open>Exception\<close>.
\<close>

datatype exn =
    TypeError string
  | ValueError string
  | OverflowError string
  | KeyError string

fun str_exn :: "exn \<Rightarrow> string" where
  "str_exn (TypeError m) = m"
| "str_exn (ValueError m) = m"
| "str_exn (OverflowError m) = m"
| "str_exn (KeyError m) = m"

text \<open>A string between apostrophes, as the messages quote type names and keys.\<close>

definition quoted :: "string \<Rightarrow> string" where
  "quoted s = CHR 0x27 # s @ [CHR 0x27]"

text \<open>
  \<^verbatim>\<open>repr\<close> of a string, as error messages quote a literal or a key: between
  apostrophes, or between double quotes when the string has an apostrophe and no double
  quote; the quote character and the backslash escaped; tab, newline and return as
  \<^verbatim>\<open>\t\<close>, \<^verbatim>\<open>\n\<close>, \<^verbatim>\<open>\r\<close>; any other character that is not printable (among the first
  256 code points: below 0x20, 0x7F to 0xA0, and 0xAD) as \<^verbatim>\<open>\x\<close> and two hexadecimal
  digits.
\<close>

definition str_printable :: "char \<Rightarrow> bool" where
  "str_printable c =
     (32 \<le> (of_char c :: nat) \<and> (of_char c :: nat) < 127 \<or>
      160 < (of_char c :: nat) \<and> (of_char c :: nat) \<noteq> 173)"

definition hex_digit :: "nat \<Rightarrow> char" where
  "hex_digit n = ''0123456789abcdef'' ! n"

definition repr_char :: "char \<Rightarrow> char \<Rightarrow> string" where
  "repr_char quote c =
     (if c = quote \<or> c = CHR 0x5C then [CHR 0x5C, c]
      else if c = CHR 0x09 then [CHR 0x5C, CHR ''t'']
      else if c = CHR 0x0A then [CHR 0x5C, CHR ''n'']
      else if c = CHR 0x0D then [CHR 0x5C, CHR ''r'']
      else if str_printable c then [c]
      else [CHR 0x5C, CHR ''x'', hex_digit (of_char c div 16), hex_digit (of_char c mod 16)])"

definition repr_str :: "string \<Rightarrow> string" where
  "repr_str s =
     (let quote =
        (if List.member s (CHR 0x27) \<and> \<not> List.member s (CHR 0x22) then CHR 0x22
         else CHR 0x27)
      in quote # concat (map (repr_char quote) s) @ [quote])"

text \<open>The decimal text of an integer, as \<^verbatim>\<open>str\<close> and an f-string print it.\<close>

fun str_nat :: "nat \<Rightarrow> string" where
  "str_nat n =
     (if n < 10 then [''0123456789'' ! n]
      else str_nat (n div 10) @ [''0123456789'' ! (n mod 10)])"

declare str_nat.simps [simp del]

definition str_int :: "int \<Rightarrow> string" where
  "str_int i = (if i < 0 then CHR ''-'' # str_nat (nat (- i)) else str_nat (nat i))"

fun type_name :: "pyval \<Rightarrow> string" where
  "type_name PNone = ''NoneType''"
| "type_name (PBool b) = ''bool''"
| "type_name (PInt n) = ''int''"
| "type_name (PFloat f) = ''float''"
| "type_name (PStr s) = ''str''"
| "type_name (PList xs) = ''list''"
| "type_name (PDict kvs) = ''dict''"

text \<open>\<^verbatim>\<open>isinstance(x, dict)\<close> and \<^verbatim>\<open>isinstance(x, list)\<close>.\<close>

fun is_dict :: "pyval \<Rightarrow> bool" where
  "is_dict (PDict kvs) = True"
| "is_dict v = False"

fun is_list :: "pyval \<Rightarrow> bool" where
  "is_list (PList xs) = True"
| "is_list v = False"

text \<open>Truth value testing, as \<^verbatim>\<open>not x\<close> and \<^verbatim>\<open>if x\<close> use it.\<close>

fun truthy :: "pyval \<Rightarrow> bool" where
  "truthy PNone = False"
| "truthy (PBool b) = b"
| "truthy (PInt n) = (n \<noteq> 0)"
| "truthy (PFloat f) = (f \<noteq> Finite 0)"
| "truthy (PStr s) = (s \<noteq> [])"
| "truthy (PList xs) = (xs \<noteq> [])"
| "truthy (PDict kvs) = (kvs \<noteq> [])"

text \<open>
  Iteration (\<^verbatim>\<open>for item in x\<close>): a list yields its elements, a dictionary its keys, a
  string its characters; anything else raises \<^verbatim>\<open>TypeError\<close>.
\<close>

fun py_iter :: "pyval \<Rightarrow> exn + pyval list" where
  "py_iter (PList xs) = Inr xs"
| "py_iter (PDict kvs) = Inr (map (\<lambda>kv. PStr (fst kv)) kvs)"
| "py_iter (PStr s) = Inr (map (\<lambda>c. PStr [c]) s)"
| "py_iter v = Inl (TypeError (quoted (type_name v) @ '' object is not iterable''))"

text \<open>
  Membership of a string key (\<^verbatim>\<open>key in x\<close>): a key of a dictionary, an element of a
  list, a substring of a string; anything else raises \<^verbatim>\<open>TypeError\<close>.
\<close>

fun starts_with :: "string \<Rightarrow> string \<Rightarrow> bool" where
  "starts_with s [] = True"
| "starts_with [] (c # cs) = False"
| "starts_with (d # ds) (c # cs) = (d = c \<and> starts_with ds cs)"

fun str_contains :: "string \<Rightarrow> string \<Rightarrow> bool" where
  "str_contains [] sub = (sub = [])"
| "str_contains (d # ds) sub = (starts_with (d # ds) sub \<or> str_contains ds sub)"

fun py_contains :: "string \<Rightarrow> pyval \<Rightarrow> exn + bool" where
  "py_contains key (PDict kvs) = Inr (map_of kvs key \<noteq> None)"
| "py_contains key (PList xs) = Inr (List.member xs (PStr key))"
| "py_contains key (PStr s) = Inr (str_contains s key)"
| "py_contains key v =
     Inl (TypeError (''argument of type '' @ quoted (type_name v) @ '' is not iterable''))"

text \<open>
  Subscription with a string key (\<^verbatim>\<open>x[key]\<close>): the value of a dictionary (or
  \<^verbatim>\<open>KeyError\<close>); a list or a string refuses a string index with \<^verbatim>\<open>TypeError\<close>.
\<close>

fun py_getitem :: "pyval \<Rightarrow> string \<Rightarrow> exn + pyval" where
  "py_getitem (PDict kvs) key =
     (case map_of kvs key of
        None \<Rightarrow> Inl (KeyError (repr_str key))
      | Some v \<Rightarrow> Inr v)"
| "py_getitem (PList xs) key =
     Inl (TypeError ''list indices must be integers or slices, not str'')"
| "py_getitem (PStr s) key =
     Inl (TypeError (''string indices must be integers, not '' @ quoted ''str''))"
| "py_getitem v key =
     Inl (TypeError (quoted (type_name v) @ '' object is not subscriptable''))"

section \<open>Conversions: \<^verbatim>\<open>int()\<close>, \<^verbatim>\<open>str()\<close> and comparison with constants\<close>

text \<open>
  White space: \<^verbatim>\<open>str.strip()\<close> removes the characters for which \<^verbatim>\<open>str.isspace\<close>
  holds (among the first 256 code points: 0x09 to 0x0D, 0x1C to 0x1F, the space, 0x85 and
  0xA0); \<^verbatim>\<open>int()\<close> skips the ASCII white space 0x09 to 0x0D and the space, and the two
  Latin-1 spaces, around its literal.
\<close>

definition str_space :: "char \<Rightarrow> bool" where
  "str_space c =
     List.member [CHR 0x09, CHR 0x0A, CHR 0x0B, CHR 0x0C, CHR 0x0D, CHR 0x1C, CHR 0x1D,
       CHR 0x1E, CHR 0x1F, CHR 0x20, CHR 0x85, CHR 0xA0] c"

definition int_space :: "char \<Rightarrow> bool" where
  "int_space c =
     List.member [CHR 0x09, CHR 0x0A, CHR 0x0B, CHR 0x0C, CHR 0x0D, CHR 0x20, CHR 0x85,
       CHR 0xA0] c"

definition strip_with :: "(char \<Rightarrow> bool) \<Rightarrow> string \<Rightarrow> string" where
  "strip_with sp s = rev (dropWhile sp (rev (dropWhile sp s)))"

text \<open>
  The literal that \<^verbatim>\<open>int(s)\<close> reads in base 10: white space, an optional sign, then
  decimal digits in groups separated by single underscores, then white space. The run of
  digits and underscores is read first; more than 4300 digits in it are refused
  (\<^verbatim>\<open>sys.int_max_str_digits\<close>) before what follows the run is looked at. Both
  refusals are a \<^verbatim>\<open>ValueError\<close>; the message of the first shows at most 200
  characters of the \<^verbatim>\<open>repr\<close> of the string.
\<close>

definition is_digit :: "char \<Rightarrow> bool" where
  "is_digit c = List.member ''0123456789'' c"

definition digit_val :: "char \<Rightarrow> int" where
  "digit_val c = of_char c - 48"

fun int_digits :: "string \<Rightarrow> string option" where
  "int_digits [] = None"
| "int_digits [c] = (if is_digit c then Some [c] else None)"
| "int_digits (c # d # rest) =
     (if \<not> is_digit c then None
      else if d = CHR ''_'' then map_option ((#) c) (int_digits rest)
      else map_option ((#) c) (int_digits (d # rest)))"

definition digits_value :: "string \<Rightarrow> int" where
  "digits_value ds = foldl (\<lambda>a c. 10 * a + digit_val c) 0 ds"

definition int_max_str_digits :: nat where
  "int_max_str_digits = 4300"

fun split_sign :: "string \<Rightarrow> bool \<times> string" where
  "split_sign [] = (False, [])"
| "split_sign (c # cs) =
     (if c = CHR ''-'' then (True, cs)
      else if c = CHR ''+'' then (False, cs)
      else (False, c # cs))"

definition in_digit_run :: "char \<Rightarrow> bool" where
  "in_digit_run c = (is_digit c \<or> c = CHR ''_'')"

definition invalid_literal :: "string \<Rightarrow> exn" where
  "invalid_literal s =
     ValueError (''invalid literal for int() with base 10: '' @ take 200 (repr_str s))"

definition exceeds_limit :: "nat \<Rightarrow> exn" where
  "exceeds_limit digits =
     ValueError
       (''Exceeds the limit ('' @ str_nat int_max_str_digits
         @ '' digits) for integer string conversion: value has '' @ str_nat digits
         @ '' digits; use sys.set_int_max_str_digits() to increase the limit'')"

definition int_of_str :: "string \<Rightarrow> exn + int" where
  "int_of_str s =
     (case split_sign (strip_with int_space s) of
        (neg, body) \<Rightarrow>
          (case int_digits (takeWhile in_digit_run body) of
             None \<Rightarrow> Inl (invalid_literal s)
           | Some ds \<Rightarrow>
               if int_max_str_digits < length ds then Inl (exceeds_limit (length ds))
               else if dropWhile in_digit_run body \<noteq> [] then Inl (invalid_literal s)
               else Inr (if neg then - digits_value ds else digits_value ds)))"

text \<open>A finite float is truncated towards zero.\<close>

definition py_trunc :: "rat \<Rightarrow> int" where
  "py_trunc q = (if q < 0 then - \<lfloor>- q\<rfloor> else \<lfloor>q\<rfloor>)"

text \<open>
  \<^verbatim>\<open>int(v)\<close>. It raises \<^verbatim>\<open>TypeError\<close> on \<^verbatim>\<open>None\<close>, a list or a dictionary,
  \<^verbatim>\<open>ValueError\<close> on a string that is no literal and on NaN, and \<^verbatim>\<open>OverflowError\<close> on
  an infinity.
\<close>

fun py_int :: "pyval \<Rightarrow> exn + int" where
  "py_int (PBool b) = Inr (if b then 1 else 0)"
| "py_int (PInt n) = Inr n"
| "py_int (PFloat (Finite q)) = Inr (py_trunc q)"
| "py_int (PFloat NaN) = Inl (ValueError ''cannot convert float NaN to integer'')"
| "py_int (PFloat f) = Inl (OverflowError ''cannot convert float infinity to integer'')"
| "py_int (PStr s) = int_of_str s"
| "py_int v =
     Inl (TypeError
       (''int() argument must be a string, a bytes-like object or a real number, not ''
         @ quoted (type_name v)))"

text \<open>
  Of \<^verbatim>\<open>str(score)\<close> the code uses three tests only: whether it is empty, whether it is
  blank after \<^verbatim>\<open>strip()\<close>, and whether it is the text \<^verbatim>\<open>{}\<close>. The \<^verbatim>\<open>str\<close> of a
  string is the string; that of any other value is never blank, and it is \<^verbatim>\<open>{}\<close> for
  the empty dictionary only.
\<close>

fun str_empty :: "pyval \<Rightarrow> bool" where
  "str_empty (PStr s) = (s = [])"
| "str_empty v = False"

fun str_blank :: "pyval \<Rightarrow> bool" where
  "str_blank (PStr s) = (strip_with str_space s = [])"
| "str_blank v = False"

fun str_is_braces :: "pyval \<Rightarrow> bool" where
  "str_is_braces (PStr s) = (s = ''{}'')"
| "str_is_braces (PDict kvs) = (kvs = [])"
| "str_is_braces v = False"

text \<open>
  \<^verbatim>\<open>score == ""\<close>, \<^verbatim>\<open>score == 0\<close> (which \<^verbatim>\<open>False\<close> and \<^verbatim>\<open>0.0\<close> satisfy too) and
  \<^verbatim>\<open>score == {}\<close>.
\<close>

fun eq_empty_str :: "pyval \<Rightarrow> bool" where
  "eq_empty_str (PStr s) = (s = [])"
| "eq_empty_str v = False"

fun eq_zero :: "pyval \<Rightarrow> bool" where
  "eq_zero (PInt n) = (n = 0)"
| "eq_zero (PBool b) = (\<not> b)"
| "eq_zero (PFloat f) = (f = Finite 0)"
| "eq_zero v = False"

fun eq_empty_dict :: "pyval \<Rightarrow> bool" where
  "eq_empty_dict (PDict kvs) = (kvs = [])"
| "eq_empty_dict v = False"

section \<open>The extractors\<close>

text \<open>
  \<^verbatim>\<open>_extract_players\<close>: the loop over the alias keys, then the fallback on
  \<^verbatim>\<open>name\<close> or \<^verbatim>\<open>scores\<close>. A key whose value is neither a list nor a dictionary
  returns nothing, and the loop goes on with the next key.
\<close>

fun extract_players_from :: "string list \<Rightarrow> pyval \<Rightarrow> exn + pyval list" where
  "extract_players_from [] pairing_group =
     (case py_contains ''name'' pairing_group of
        Inl e \<Rightarrow> Inl e
      | Inr has_name \<Rightarrow>
          if has_name then Inr [pairing_group]
          else
            (case py_contains ''scores'' pairing_group of
               Inl e \<Rightarrow> Inl e
             | Inr has_scores \<Rightarrow> if has_scores then Inr [pairing_group] else Inr []))"
| "extract_players_from (key # keys) pairing_group =
     (case py_contains key pairing_group of
        Inl e \<Rightarrow> Inl e
      | Inr present \<Rightarrow>
          if present then
            (case py_getitem pairing_group key of
               Inl e \<Rightarrow> Inl e
             | Inr players_data \<Rightarrow>
                 (case players_data of
                    PList players \<Rightarrow> Inr players
                  | PDict kvs \<Rightarrow> Inr [players_data]
                  | _ \<Rightarrow> extract_players_from keys pairing_group))
          else extract_players_from keys pairing_group)"

definition player_keys :: "string list" where
  "player_keys = [''players'', ''player'', ''pairing'', ''members'']"

definition extract_players :: "pyval \<Rightarrow> exn + pyval list" where
  "extract_players pairing_group = extract_players_from player_keys pairing_group"

text \<open>\<^verbatim>\<open>_extract_scores\<close>: the first alias key whose value is a list.\<close>

fun extract_scores_from :: "string list \<Rightarrow> pyval \<Rightarrow> exn + pyval list" where
  "extract_scores_from [] player = Inr []"
| "extract_scores_from (key # keys) player =
     (case py_contains key player of
        Inl e \<Rightarrow> Inl e
      | Inr present \<Rightarrow>
          if present then
            (case py_getitem player key of
               Inl e \<Rightarrow> Inl e
             | Inr scores_data \<Rightarrow>
                 (case scores_data of
                    PList scores \<Rightarrow> Inr scores
                  | _ \<Rightarrow> extract_scores_from keys player))
          else extract_scores_from keys player)"

definition score_keys :: "string list" where
  "score_keys = [''score_array'', ''scores'', ''score'', ''holes'', ''hole_scores'']"

definition extract_scores :: "pyval \<Rightarrow> exn + pyval list" where
  "extract_scores player = extract_scores_from score_keys player"

section \<open>The score validity predicate\<close>

text \<open>The test of line 134: \<^verbatim>\<open>None\<close>, the empty string, zero, the empty dictionary.\<close>

definition skipped :: "pyval \<Rightarrow> bool" where
  "skipped score =
     (score = PNone \<or> eq_empty_str score \<or> eq_zero score \<or> eq_empty_dict score)"

text \<open>
  \<^verbatim>\<open>_has_valid_scores\<close>. The handler catches \<^verbatim>\<open>ValueError\<close> and \<^verbatim>\<open>TypeError\<close>;
  any other exception of \<^verbatim>\<open>int()\<close> leaves the function.
\<close>

fun has_valid_scores :: "pyval list \<Rightarrow> exn + bool" where
  "has_valid_scores [] = Inr False"
| "has_valid_scores (score # scores) =
     (if skipped score then has_valid_scores scores
      else if is_dict score \<and> \<not> truthy score then has_valid_scores scores
      else
        (case py_int score of
           Inr score_int \<Rightarrow>
             if 1 \<le> score_int \<and> score_int \<le> 15 then Inr True
             else has_valid_scores scores
         | Inl (ValueError m) \<Rightarrow>
             if \<not> str_blank score \<and> \<not> str_is_braces score then Inr True
             else has_valid_scores scores
         | Inl (TypeError m) \<Rightarrow>
             if \<not> str_blank score \<and> \<not> str_is_braces score then Inr True
             else has_valid_scores scores
         | Inl e \<Rightarrow> Inl e))"

section \<open>The round scoring analyzer\<close>

text \<open>
  A \<^verbatim>\<open>for\<close> loop whose body may raise: the state is threaded through the elements and
  the first exception ends the loop.
\<close>

fun for_each :: "('s \<Rightarrow> 'a \<Rightarrow> exn + 's) \<Rightarrow> 's \<Rightarrow> 'a list \<Rightarrow> exn + 's" where
  "for_each body s [] = Inr s"
| "for_each body s (x # xs) =
     (case body s x of Inl e \<Rightarrow> Inl e | Inr s' \<Rightarrow> for_each body s' xs)"

text \<open>The slice \<^verbatim>\<open>xs[i:j]\<close> for \<open>0 \<le> i \<le> j\<close>.\<close>

definition slice :: "'a list \<Rightarrow> nat \<Rightarrow> nat \<Rightarrow> 'a list" where
  "slice xs i j = take (j - i) (drop i xs)"

text \<open>
  The three counters of \<^verbatim>\<open>analyze_round_scoring\<close>: \<^verbatim>\<open>total_players\<close>,
  \<^verbatim>\<open>total_front_9_scores\<close> and \<^verbatim>\<open>total_back_9_scores\<close> (Python integers).
\<close>

type_synonym counts = "int \<times> int \<times> int"

text \<open>The body of the loop over the players (lines 48 to 64).\<close>

fun count_player :: "counts \<Rightarrow> pyval \<Rightarrow> exn + counts" where
  "count_player (total_players, total_front_9_scores, total_back_9_scores) player =
     (if \<not> is_dict player then
        Inr (total_players, total_front_9_scores, total_back_9_scores)
      else
        (case extract_scores player of
           Inl e \<Rightarrow> Inl e
         | Inr scores \<Rightarrow>
             if 18 \<le> length scores then
               (case has_valid_scores (slice scores 0 9) of
                  Inl e \<Rightarrow> Inl e
                | Inr front_valid \<Rightarrow>
                    (case has_valid_scores (slice scores 9 18) of
                       Inl e \<Rightarrow> Inl e
                     | Inr back_valid \<Rightarrow>
                         Inr (total_players + 1,
                              if front_valid then total_front_9_scores + 1
                              else total_front_9_scores,
                              if back_valid then total_back_9_scores + 1
                              else total_back_9_scores)))
             else Inr (total_players + 1, total_front_9_scores, total_back_9_scores)))"

text \<open>
  The body of the loop over the entries of the tee sheet (lines 35 to 64), with the
  body of the loop over the players as a parameter: \<^verbatim>\<open>get_detailed_analysis\<close> runs
  the same lines with another body.
\<close>

definition visit_item :: "('s \<Rightarrow> pyval \<Rightarrow> exn + 's) \<Rightarrow> 's \<Rightarrow> pyval \<Rightarrow> exn + 's" where
  "visit_item body s item =
     (if \<not> is_dict item then Inr s
      else
        (case py_contains ''pairing_group'' item of
           Inl e \<Rightarrow> Inl e
         | Inr wrapped \<Rightarrow>
             (case (if wrapped then py_getitem item ''pairing_group'' else Inr item) of
                Inl e \<Rightarrow> Inl e
              | Inr pairing_group \<Rightarrow>
                  (case extract_players pairing_group of
                     Inl e \<Rightarrow> Inl e
                   | Inr players \<Rightarrow> for_each body s players))))"

text \<open>The \<^verbatim>\<open>try\<close> block of \<^verbatim>\<open>analyze_round_scoring\<close> (lines 34 to 64).\<close>

definition count_pass :: "pyval \<Rightarrow> exn + counts" where
  "count_pass tee_sheet_data =
     (case py_iter tee_sheet_data of
        Inl e \<Rightarrow> Inl e
      | Inr items \<Rightarrow> for_each (visit_item count_player) (0, 0, 0) items)"

text \<open>The decision after the pass (lines 69 to 100), the last return included.\<close>

fun decide :: "counts \<Rightarrow> bool \<times> string" where
  "decide (total_players, total_front_9_scores, total_back_9_scores) =
     (if total_players = 0 then (False, ''No players found in tee sheet'')
      else
        (let has_front_9_scores = (0 < total_front_9_scores);
             has_back_9_scores = (0 < total_back_9_scores)
         in
           if has_front_9_scores \<and> has_back_9_scores then
             (True,
              ''Complete scoring detected: F9='' @ str_int total_front_9_scores
                @ '', B9='' @ str_int total_back_9_scores @ '' players'')
           else if has_front_9_scores \<and> \<not> has_back_9_scores then
             (False,
              ''Only front 9 scores found ('' @ str_int total_front_9_scores @ ''/''
                @ str_int total_players @ '' players)'')
           else if has_back_9_scores \<and> \<not> has_front_9_scores then
             (False,
              ''Only back 9 scores found ('' @ str_int total_back_9_scores @ ''/''
                @ str_int total_players @ '' players)'')
           else if \<not> has_front_9_scores \<and> \<not> has_back_9_scores then
             (False, ''No scores found on either front or back 9'')
           else (False, ''Unexpected scoring state'')))"

text \<open>
  \<^verbatim>\<open>analyze_round_scoring\<close>: the test for no data, the \<^verbatim>\<open>try\<close> block with its
  handler, the decision.
\<close>

definition analyze_round_scoring :: "pyval \<Rightarrow> exn + bool \<times> string" where
  "analyze_round_scoring tee_sheet_data =
     (if \<not> truthy tee_sheet_data then Inr (True, ''No tee sheet data available'')
      else
        (case count_pass tee_sheet_data of
           Inl e \<Rightarrow> Inr (True, ''Error analyzing scores: '' @ str_exn e)
         | Inr totals \<Rightarrow> Inr (decide totals)))"

section \<open>The detailed analysis\<close>

record detailed_analysis =
  total_players :: int
  front_9_players :: int
  back_9_players :: int
  complete_players :: int
  incomplete_players :: int
  is_flagged :: bool
  flag_reason :: string

text \<open>
  The four counters of \<^verbatim>\<open>get_detailed_analysis\<close>: \<^verbatim>\<open>total_players\<close>,
  \<^verbatim>\<open>front_9_players\<close>, \<^verbatim>\<open>back_9_players\<close> and \<^verbatim>\<open>complete_players\<close>.
\<close>

type_synonym tallies = "int \<times> int \<times> int \<times> int"

text \<open>The body of its loop over the players (lines 187 to 205).\<close>

fun tally_player :: "tallies \<Rightarrow> pyval \<Rightarrow> exn + tallies" where
  "tally_player (n_total, n_front_9, n_back_9, n_complete) player =
     (if \<not> is_dict player then Inr (n_total, n_front_9, n_back_9, n_complete)
      else
        (case extract_scores player of
           Inl e \<Rightarrow> Inl e
         | Inr scores \<Rightarrow>
             if 18 \<le> length scores then
               (case has_valid_scores (slice scores 0 9) of
                  Inl e \<Rightarrow> Inl e
                | Inr has_front_9 \<Rightarrow>
                    (case has_valid_scores (slice scores 9 18) of
                       Inl e \<Rightarrow> Inl e
                     | Inr has_back_9 \<Rightarrow>
                         Inr (n_total + 1,
                              if has_front_9 then n_front_9 + 1 else n_front_9,
                              if has_back_9 then n_back_9 + 1 else n_back_9,
                              if has_front_9 \<and> has_back_9 then n_complete + 1
                              else n_complete)))
             else Inr (n_total + 1, n_front_9, n_back_9, n_complete)))"

text \<open>Its \<^verbatim>\<open>try\<close> block (lines 174 to 205).\<close>

definition tally_pass :: "pyval \<Rightarrow> exn + tallies" where
  "tally_pass tee_sheet_data =
     (case py_iter tee_sheet_data of
        Inl e \<Rightarrow> Inl e
      | Inr items \<Rightarrow> for_each (visit_item tally_player) (0, 0, 0, 0) items)"

text \<open>
  \<^verbatim>\<open>get_detailed_analysis\<close>. After a pass without exception it calls
  \<^verbatim>\<open>analyze_round_scoring\<close> on the same data; an exception of that call would leave
  the function.
\<close>

definition get_detailed_analysis :: "pyval \<Rightarrow> exn + detailed_analysis" where
  "get_detailed_analysis tee_sheet_data =
     (if \<not> truthy tee_sheet_data then
        Inr \<lparr>total_players = 0, front_9_players = 0, back_9_players = 0,
             complete_players = 0, incomplete_players = 0, is_flagged = True,
             flag_reason = ''No tee sheet data available''\<rparr>
      else
        (case tally_pass tee_sheet_data of
           Inl e \<Rightarrow>
             Inr \<lparr>total_players = 0, front_9_players = 0, back_9_players = 0,
                  complete_players = 0, incomplete_players = 0, is_flagged = True,
                  flag_reason = ''Error analyzing scores: '' @ str_exn e\<rparr>
         | Inr (n_total, n_front_9, n_back_9, n_complete) \<Rightarrow>
             (case analyze_round_scoring tee_sheet_data of
                Inl e \<Rightarrow> Inl e
              | Inr (flagged, reason) \<Rightarrow>
                  Inr \<lparr>total_players = n_total, front_9_players = n_front_9,
                       back_9_players = n_back_9, complete_players = n_complete,
                       incomplete_players = n_total - n_complete, is_flagged = flagged,
                       flag_reason = reason\<rparr>)))"

text \<open>
  The players of an entry of the tee sheet (lines 39 to 45 and 179 to 184): the list
  that \<^const>\<open>visit_item\<close> runs the loop body over.
\<close>

definition players_of_item :: "pyval \<Rightarrow> exn + pyval list" where
  "players_of_item item =
     (case py_contains ''pairing_group'' item of
        Inl e \<Rightarrow> Inl e
      | Inr wrapped \<Rightarrow>
          (case (if wrapped then py_getitem item ''pairing_group'' else Inr item) of
             Inl e \<Rightarrow> Inl e
           | Inr pairing_group \<Rightarrow> extract_players pairing_group))"

text \<open>
  The counters after a player who is counted, with a valid front nine and a valid back
  nine or not.
\<close>

fun add_player :: "bool \<Rightarrow> bool \<Rightarrow> tallies \<Rightarrow> tallies" where
  "add_player has_front_9 has_back_9 (t, f, b, c) =
     (t + 1,
      if has_front_9 then f + 1 else f,
      if has_back_9 then b + 1 else b,
      if has_front_9 \<and> has_back_9 then c + 1 else c)"

text \<open>The counters of the first pass that a state of the second pass holds.\<close>

fun drop_complete :: "tallies \<Rightarrow> counts" where
  "drop_complete (t, f, b, c) = (t, f, b)"

text \<open>What the counters satisfy at every moment of the first pass.\<close>

definition counts_ok :: "counts \<Rightarrow> bool" where
  "counts_ok c = (case c of (t, f, b) \<Rightarrow> 0 \<le> f \<and> f \<le> t \<and> 0 \<le> b \<and> b \<le> t)"

text \<open>The record that \<^verbatim>\<open>get_detailed_analysis\<close> returns from its handler.\<close>

definition error_record :: "string \<Rightarrow> detailed_analysis" where
  "error_record reason =
     \<lparr>total_players = 0, front_9_players = 0, back_9_players = 0, complete_players = 0,
      incomplete_players = 0, is_flagged = True, flag_reason = reason\<rparr>"

section \<open>Payloads of the unit tests and other concrete inputs\<close>

text \<open>The tee sheets of \<^verbatim>\<open>tests/unit/test_scoring_analysis.py\<close>.\<close>

definition complete_round :: pyval where
  "complete_round =
     PList [PDict [(''players'', PList [PDict [(''name'', PStr ''Test Player''),
       (''scores'', PList [PInt 4, PInt 5, PInt 3, PInt 4, PInt 5, PInt 4, PInt 4, PInt 3,
          PInt 5, PInt 4, PInt 4, PInt 5, PInt 3, PInt 4, PInt 4, PInt 5, PInt 4,
          PInt 3])]])]]"

definition front_nine_only :: pyval where
  "front_nine_only =
     PList [PDict [(''players'', PList [PDict [(''name'', PStr ''Test Player''),
       (''scores'', PList [PInt 4, PInt 5, PInt 3, PInt 4, PInt 5, PInt 4, PInt 4, PInt 3,
          PInt 5, PNone, PNone, PNone, PNone, PNone, PNone, PNone, PNone, PNone])]])]]"

definition back_nine_only :: pyval where
  "back_nine_only =
     PList [PDict [(''players'', PList [PDict [(''name'', PStr ''Test Player''),
       (''scores'', PList [PNone, PNone, PNone, PNone, PNone, PNone, PNone, PNone, PNone,
          PInt 4, PInt 4, PInt 5, PInt 3, PInt 4, PInt 4, PInt 5, PInt 4, PInt 3])]])]]"

text \<open>
  A wrapper whose \<^verbatim>\<open>pairing_group\<close> is \<^verbatim>\<open>null\<close>, and a player whose eighteen
  scores are infinite floats: two payloads on which the pass raises.
\<close>

definition unwrapped_none :: pyval where
  "unwrapped_none = PList [PDict [(''pairing_group'', PNone)]]"

definition infinite_scores :: pyval where
  "infinite_scores =
     PList [PDict [(''players'',
       PList [PDict [(''scores'', PList (replicate 18 (PFloat PosInf)))]])]]"

text \<open>
  A tee sheet in pieces: a group with one full card; a group under \<^verbatim>\<open>pairing_group\<close>
  with the given players; a group with one player under \<^verbatim>\<open>player\<close>, whose front nine
  are empty strings. The players: one with a front nine only, one without scores, one
  with seventeen scores, one with a back nine only and a nineteenth entry.
\<close>

definition full_card_group :: pyval where
  "full_card_group = PDict [(''players'', PList [PDict [(''scores'', PList (replicate 18 (PInt 4)))]])]"

definition back_nine_group :: pyval where
  "back_nine_group =
     PDict [(''player'', PDict [(''name'', PStr ''D''),
       (''hole_scores'', PList (replicate 9 (PStr []) @ replicate 9 (PStr ''5'')))])]"

definition front_nine_player :: pyval where
  "front_nine_player =
     PDict [(''name'', PStr ''A''),
       (''scores'', PList (replicate 9 (PInt 4) @ replicate 9 PNone))]"

definition no_scores_player :: pyval where
  "no_scores_player = PDict [(''name'', PStr ''B'')]"

definition back_nine_and_more :: "(string \<times> pyval) list" where
  "back_nine_and_more =
     [(''name'', PStr ''C''),
      (''scores'', PList (replicate 9 PNone @ replicate 9 (PInt 3) @ [PInt 7]))]"

definition wrapped_group :: "pyval list \<Rightarrow> pyval" where
  "wrapped_group players = PDict [(''pairing_group'', PDict [(''players'', PList players)])]"

definition seventeen_scores :: "(string \<times> pyval) list" where
  "seventeen_scores = [(''name'', PStr ''Short''), (''scores'', PList (replicate 17 (PInt 4)))]"

text \<open>
  Two pairing groups whose \<^verbatim>\<open>players\<close> is \<^verbatim>\<open>null\<close>, one of them with a \<^verbatim>\<open>player\<close>
  too.
\<close>

definition null_players_then_player :: "(string \<times> pyval) list" where
  "null_players_then_player =
     [(''players'', PNone), (''player'', PDict [(''name'', PStr ''X'')])]"

definition null_players_only :: "(string \<times> pyval) list" where
  "null_players_only = [(''players'', PNone)]"

text \<open>
  An alias key that the loop of \<^verbatim>\<open>_extract_players\<close> passes over: it is absent, or its
  value is neither a list nor a dictionary.
\<close>

definition passed_over :: "(string \<times> pyval) list \<Rightarrow> string \<Rightarrow> bool" where
  "passed_over kvs key =
     (case map_of kvs key of None \<Rightarrow> True | Some v \<Rightarrow> \<not> is_list v \<and> \<not> is_dict v)"

section \<open>Properties of the loops\<close>

lemma extract_scores_from_dict:
  "\<exists>scores. extract_scores_from keys (PDict kvs) = Inr scores"
  by (induction keys) (auto split: option.splits pyval.splits)

lemma extract_scores_dict: "\<exists>scores. extract_scores (PDict kvs) = Inr scores"
  by (simp add: extract_scores_def extract_scores_from_dict)

lemma for_each_invariant:
  assumes step: "\<And>s x s'. P s \<Longrightarrow> body s x = Inr s' \<Longrightarrow> P s'"
  shows "P s \<Longrightarrow> for_each body s xs = Inr s' \<Longrightarrow> P s'"
proof (induction xs arbitrary: s)
  case Nil
  then show ?case by simp
next
  case (Cons x xs)
  then show ?case
    by (auto split: sum.splits dest: step)
qed

lemma visit_item_invariant:
  assumes step: "\<And>s x s'. P s \<Longrightarrow> body s x = Inr s' \<Longrightarrow> P s'"
  shows "P s \<Longrightarrow> visit_item body s item = Inr s' \<Longrightarrow> P s'"
  unfolding visit_item_def
  by (auto split: if_splits sum.splits intro: for_each_invariant [of P body, OF step])

lemma count_player_ok:
  "counts_ok c \<Longrightarrow> count_player c player = Inr c' \<Longrightarrow> counts_ok c'"
  by (cases c) (auto simp: counts_ok_def split: if_splits sum.splits)

lemma count_pass_ok:
  assumes "count_pass x = Inr c"
  shows "counts_ok c"
proof -
  from assms obtain items where
    run: "for_each (visit_item count_player) (0, 0, 0) items = Inr c"
    unfolding count_pass_def by (auto split: sum.splits)
  have item: "\<And>s i s'. counts_ok s \<Longrightarrow> visit_item count_player s i = Inr s' \<Longrightarrow> counts_ok s'"
    by (rule visit_item_invariant [of counts_ok count_player]) (rule count_player_ok)
  have start: "counts_ok (0, 0, 0)"
    by (simp add: counts_ok_def)
  from for_each_invariant [of counts_ok "visit_item count_player" "(0, 0, 0)" items c,
      OF item start run]
  show ?thesis .
qed

text \<open>
  The second pass is the first one with a fourth counter: forgetting that counter turns
  every step of the one into the step of the other, exceptions included.
\<close>

lemma for_each_simulation:
  assumes step: "\<And>s x. map_sum id proj (body2 s x) = body1 (proj s) x"
  shows "map_sum id proj (for_each body2 s xs) = for_each body1 (proj s) xs"
proof (induction xs arbitrary: s)
  case Nil
  show ?case by simp
next
  case (Cons x xs)
  show ?case
  proof (cases "body2 s x")
    case (Inl e)
    with step [of s x] have "body1 (proj s) x = Inl e" by simp
    with Inl show ?thesis by simp
  next
    case (Inr s')
    with step [of s x] have "body1 (proj s) x = Inr (proj s')" by simp
    with Inr Cons.IH [of s'] show ?thesis by simp
  qed
qed

lemma visit_item_simulation:
  assumes step: "\<And>s x. map_sum id proj (body2 s x) = body1 (proj s) x"
  shows "map_sum id proj (visit_item body2 s item) = visit_item body1 (proj s) item"
  unfolding visit_item_def
  by (auto split: sum.splits simp: for_each_simulation [of proj body2 body1, OF step])

lemma tally_player_counts:
  "map_sum id drop_complete (tally_player k player) = count_player (drop_complete k) player"
  by (cases k) (auto split: sum.splits)

lemma tally_pass_counts: "map_sum id drop_complete (tally_pass x) = count_pass x"
proof -
  have item: "\<And>s i. map_sum id drop_complete (visit_item tally_player s i)
      = visit_item count_player (drop_complete s) i"
    by (rule visit_item_simulation) (rule tally_player_counts)
  have "map_sum id drop_complete (for_each (visit_item tally_player) (0, 0, 0, 0) items)
      = for_each (visit_item count_player) (0, 0, 0) items" for items
    using for_each_simulation [of drop_complete "visit_item tally_player"
        "visit_item count_player" "(0, 0, 0, 0)" items, OF item]
    by simp
  then show ?thesis
    unfolding tally_pass_def count_pass_def by (auto split: sum.splits)
qed

lemma count_pass_falsy: "\<not> truthy x \<Longrightarrow> count_pass x = Inr c \<Longrightarrow> c = (0, 0, 0)"
  by (cases x) (auto simp: count_pass_def)

lemma analyze_returns: "\<exists>v. analyze_round_scoring x = Inr v"
  by (cases "truthy x"; cases "count_pass x") (auto simp add: analyze_round_scoring_def)

lemma detailed_returns: "\<exists>r. get_detailed_analysis x = Inr r"
proof -
  obtain flagged reason where "analyze_round_scoring x = Inr (flagged, reason)"
    using analyze_returns [of x] by auto
  then show ?thesis
    by (cases "truthy x"; cases "tally_pass x")
       (auto simp add: get_detailed_analysis_def)
qed

lemma decide_not_fallback: "decide c \<noteq> (False, ''Unexpected scoring state'')"
  by (cases c) (simp add: Let_def)

text \<open>
  The counters are only incremented, never read: a step from shifted counters is the
  shifted step. So a player whose step is a shift can be taken out of any players list
  of any entry, and the pass without that player ends with the counters shifted back.
\<close>

lemma for_each_append:
  "for_each body s (xs @ ys) =
     (case for_each body s xs of Inl e \<Rightarrow> Inl e | Inr s' \<Rightarrow> for_each body s' ys)"
  by (induction xs arbitrary: s) (auto split: sum.splits)

lemma for_each_shift:
  assumes commute: "\<And>s x. body (sh s) x = map_sum id sh (body s x)"
  shows "for_each body (sh s) xs = map_sum id sh (for_each body s xs)"
proof (induction xs arbitrary: s)
  case Nil
  show ?case by simp
next
  case (Cons x xs)
  show ?case
  proof (cases "body s x")
    case (Inl e)
    with commute [of s x] show ?thesis by simp
  next
    case (Inr s')
    with commute [of s x] Cons.IH [of s'] show ?thesis by simp
  qed
qed

lemma for_each_replace:
  assumes commute: "\<And>s x. body (sh s) x = map_sum id sh (body s x)"
    and step: "\<And>s. body s y = map_sum id sh (body s y')"
  shows "for_each body s (xs @ y # ys) = map_sum id sh (for_each body s (xs @ y' # ys))"
proof (cases "for_each body s xs")
  case (Inl e)
  then show ?thesis by (simp add: for_each_append)
next
  case (Inr s1)
  show ?thesis
  proof (cases "body s1 y'")
    case (Inl e)
    with Inr step [of s1] show ?thesis by (simp add: for_each_append)
  next
    case inner: (Inr s2)
    with step [of s1] have "body s1 y = Inr (sh s2)" by simp
    with Inr inner for_each_shift [of body sh s2 ys, OF commute] show ?thesis
      by (simp add: for_each_append)
  qed
qed

lemma for_each_insert:
  assumes commute: "\<And>s x. body (sh s) x = map_sum id sh (body s x)"
    and step: "\<And>s. body s p = Inr (sh s)"
  shows "for_each body s (ps @ p # qs) = map_sum id sh (for_each body s (ps @ qs))"
proof (cases "for_each body s ps")
  case (Inl e)
  then show ?thesis by (simp add: for_each_append)
next
  case (Inr s1)
  with step [of s1] for_each_shift [of body sh s1 qs, OF commute] show ?thesis
    by (simp add: for_each_append)
qed

lemma visit_item_players:
  "is_dict item \<Longrightarrow>
     visit_item body s item =
       (case players_of_item item of Inl e \<Rightarrow> Inl e | Inr players \<Rightarrow> for_each body s players)"
  by (simp add: visit_item_def players_of_item_def split: sum.splits)

lemma visit_item_shift:
  assumes commute: "\<And>s x. body (sh s) x = map_sum id sh (body s x)"
  shows "visit_item body (sh s) item = map_sum id sh (visit_item body s item)"
  unfolding visit_item_def
  by (auto split: sum.splits simp: for_each_shift [of body sh, OF commute])

lemma tally_player_shift:
  "tally_player (add_player hf hb k) player = map_sum id (add_player hf hb) (tally_player k player)"
  by (cases k) (auto split: sum.splits)

lemma slice_nth:
  assumes "j \<le> length xs"
  shows "slice xs i j = map ((!) xs) [i..<j]"
proof -
  have "map ((!) xs) [i..<j] = slice xs i j"
    using assms by (intro map_upt_eqI) (auto simp: slice_def)
  then show ?thesis by simp
qed

lemma tally_player_step:
  assumes "extract_scores (PDict kvs) = Inr scores"
    and "length scores < 18 \<and> \<not> hf \<and> \<not> hb \<or>
         18 \<le> length scores \<and> has_valid_scores (map ((!) scores) [0..<9]) = Inr hf \<and>
         has_valid_scores (map ((!) scores) [9..<18]) = Inr hb"
  shows "tally_player k (PDict kvs) = Inr (add_player hf hb k)"
proof (cases "length scores < 18")
  case True
  with assms show ?thesis by (cases k) auto
next
  case False
  then have "slice scores 0 9 = map ((!) scores) [0..<9]"
    "slice scores 9 18 = map ((!) scores) [9..<18]"
    by (simp_all add: slice_nth)
  with False assms show ?thesis by (cases k) auto
qed


lemma tally_pass_insert_player:
  assumes items: "is_dict item" "is_dict item'"
    and with_player: "players_of_item item = Inr (ps @ PDict kvs # qs)"
    and without_player: "players_of_item item' = Inr (ps @ qs)"
    and step: "\<And>k. tally_player k (PDict kvs) = Inr (add_player hf hb k)"
  shows "tally_pass (PList (before @ item # after)) =
           map_sum id (add_player hf hb) (tally_pass (PList (before @ item' # after)))"
proof -
  have item_step: "visit_item tally_player s item
      = map_sum id (add_player hf hb) (visit_item tally_player s item')" for s
    using items with_player without_player
      for_each_insert [of tally_player "add_player hf hb" "PDict kvs" s ps qs,
        OF tally_player_shift step]
    by (simp add: visit_item_players)
  have item_shift: "visit_item tally_player (add_player hf hb s) x
      = map_sum id (add_player hf hb) (visit_item tally_player s x)" for s x
    by (rule visit_item_shift) (rule tally_player_shift)
  show ?thesis
    unfolding tally_pass_def
    using for_each_replace [of "visit_item tally_player" "add_player hf hb" item item'
        "(0, 0, 0, 0)" before after, OF item_shift item_step]
    by simp
qed

section \<open>Properties of the extractors and of the predicate\<close>

lemma py_int_error_kinds:
  "py_int v = Inl e \<Longrightarrow> v \<noteq> PFloat PosInf \<Longrightarrow> v \<noteq> PFloat NegInf \<Longrightarrow>
     (\<exists>m. e = ValueError m) \<or> (\<exists>m. e = TypeError m)"
  by (cases v rule: py_int.cases)
     (auto simp: int_of_str_def invalid_literal_def exceeds_limit_def
        split: option.splits prod.splits if_splits)

lemma has_valid_scores_step:
  assumes "x \<noteq> PFloat PosInf" "x \<noteq> PFloat NegInf"
  shows "has_valid_scores (x # xs) = Inr True \<or> has_valid_scores (x # xs) = has_valid_scores xs"
proof (cases "py_int x")
  case (Inr n)
  then show ?thesis by simp
next
  case (Inl e)
  with assms py_int_error_kinds [of x e]
  have "(\<exists>m. e = ValueError m) \<or> (\<exists>m. e = TypeError m)" by blast
  with Inl show ?thesis by auto
qed

lemma has_valid_scores_hit:
  assumes "\<not> skipped score" "py_int score = Inl (ValueError m) \<or> py_int score = Inl (TypeError m)"
    "\<not> str_blank score" "\<not> str_is_braces score"
  shows "has_valid_scores (score # xs) = Inr True"
proof -
  from assms(1) have "\<not> (is_dict score \<and> \<not> truthy score)"
    by (cases score) (auto simp: skipped_def)
  with assms show ?thesis by auto
qed

lemma extract_players_from_skip:
  assumes "\<forall>k \<in> set before. passed_over kvs k"
  shows "extract_players_from (before @ rest) (PDict kvs) = extract_players_from rest (PDict kvs)"
  using assms
proof (induction before)
  case Nil
  show ?case by simp
next
  case (Cons k ks)
  then have "passed_over kvs k" by simp
  then have "extract_players_from (k # ks @ rest) (PDict kvs)
      = extract_players_from (ks @ rest) (PDict kvs)"
    by (auto simp: passed_over_def split: option.splits pyval.splits)
  with Cons show ?case by simp
qed

section \<open>The claims\<close>

text \<open>
  C9: for every input, \<^verbatim>\<open>get_detailed_analysis\<close> returns a record, and the record's
  \<^verbatim>\<open>is_flagged\<close> and \<^verbatim>\<open>flag_reason\<close> are the pair that \<^verbatim>\<open>analyze_round_scoring\<close>
  returns on the same input.
\<close>

theorem detailed_agrees_with_analyze:
  "\<exists>r. get_detailed_analysis x = Inr r \<and>
       analyze_round_scoring x = Inr (is_flagged r, flag_reason r)"
proof (cases "truthy x")
  case False
  then show ?thesis
    by (simp add: get_detailed_analysis_def analyze_round_scoring_def)
next
  case True
  show ?thesis
  proof (cases "tally_pass x")
    case (Inl e)
    with tally_pass_counts [of x] have "count_pass x = Inl e" by simp
    with Inl True show ?thesis
      by (simp add: get_detailed_analysis_def analyze_round_scoring_def)
  next
    case (Inr k)
    with tally_pass_counts [of x] have "count_pass x = Inr (drop_complete k)" by simp
    with Inr True show ?thesis
      by (cases k; cases "decide (drop_complete k)")
         (simp add: get_detailed_analysis_def analyze_round_scoring_def)
  qed
qed

text \<open>
  C1: when the pass ends without exception with a front-9 count and a back-9 count that
  are both positive, \<^verbatim>\<open>analyze_round_scoring\<close> returns \<^verbatim>\<open>True\<close> with the reason
  "Complete scoring detected: F9=n, B9=m players"; when exactly one of the two counts is
  positive, it returns \<^verbatim>\<open>False\<close>.
\<close>

theorem complete_rounds_are_flagged:
  assumes pass: "count_pass x = Inr (n, f, b)"
  shows "(0 < f \<and> 0 < b \<longrightarrow>
            analyze_round_scoring x =
              Inr (True, ''Complete scoring detected: F9='' @ str_int f @ '', B9=''
                          @ str_int b @ '' players'')) \<and>
         ((0 < f) \<noteq> (0 < b) \<longrightarrow>
            (\<exists>reason. analyze_round_scoring x = Inr (False, reason)))"
proof (cases "truthy x")
  case False
  with pass have "(n, f, b) = (0, 0, 0)"
    by (rule count_pass_falsy [rotated])
  then show ?thesis by simp
next
  case True
  from pass have "counts_ok (n, f, b)"
    by (rule count_pass_ok)
  then have "0 < f \<or> 0 < b \<Longrightarrow> n \<noteq> 0"
    by (auto simp: counts_ok_def)
  with True pass show ?thesis
    by (auto simp: analyze_round_scoring_def)
qed

theorem complete_rounds_are_flagged_witness:
  "count_pass complete_round = Inr (1, 1, 1) \<and>
   analyze_round_scoring complete_round =
     Inr (True, ''Complete scoring detected: F9=1, B9=1 players'') \<and>
   count_pass back_nine_only = Inr (1, 0, 1) \<and>
   (\<exists>reason. analyze_round_scoring back_nine_only = Inr (False, reason))"
proof -
  have p1: "count_pass complete_round = Inr (1, 1, 1)"
    unfolding complete_round_def by code_simp
  have p2: "count_pass back_nine_only = Inr (1, 0, 1)"
    unfolding back_nine_only_def by code_simp
  have s: "str_int 1 = ''1''"
    by code_simp
  from complete_rounds_are_flagged [OF p1] complete_rounds_are_flagged [OF p2] p1 p2 s
  show ?thesis by simp
qed

text \<open>
  C2: on the tee sheet of \<^verbatim>\<open>test_analyze_front_9_only\<close> (one player, nine scores then
  nine \<^verbatim>\<open>None\<close>) the code returns \<^verbatim>\<open>False\<close>, where the test and the claim expect
  \<^verbatim>\<open>True\<close>.
\<close>

theorem front_nine_only_not_flagged:
  "analyze_round_scoring front_nine_only =
     Inr (False, ''Only front 9 scores found (1/1 players)'')"
  unfolding front_nine_only_def by code_simp

text \<open>
  C3: \<^verbatim>\<open>analyze_round_scoring\<close> and \<^verbatim>\<open>get_detailed_analysis\<close> return on every input,
  and an exception of the pass becomes the flagged result that carries its message
  (with all counts zero in the record).
\<close>

theorem entry_points_never_raise:
  "(\<exists>v. analyze_round_scoring x = Inr v) \<and>
   (\<exists>r. get_detailed_analysis x = Inr r) \<and>
   (truthy x \<and> count_pass x = Inl e \<longrightarrow>
      analyze_round_scoring x = Inr (True, ''Error analyzing scores: '' @ str_exn e)) \<and>
   (truthy x \<and> tally_pass x = Inl e \<longrightarrow>
      get_detailed_analysis x = Inr (error_record (''Error analyzing scores: '' @ str_exn e)))"
proof -
  have "truthy x \<and> count_pass x = Inl e \<longrightarrow>
      analyze_round_scoring x = Inr (True, ''Error analyzing scores: '' @ str_exn e)"
    by (simp add: analyze_round_scoring_def)
  moreover have "truthy x \<and> tally_pass x = Inl e \<longrightarrow>
      get_detailed_analysis x = Inr (error_record (''Error analyzing scores: '' @ str_exn e))"
    by (simp add: get_detailed_analysis_def error_record_def)
  ultimately show ?thesis
    using analyze_returns [of x] detailed_returns [of x] by blast
qed

theorem entry_points_never_raise_witness:
  "truthy unwrapped_none \<and>
   count_pass unwrapped_none =
     Inl (TypeError (''argument of type '' @ quoted ''NoneType'' @ '' is not iterable'')) \<and>
   analyze_round_scoring unwrapped_none =
     Inr (True, ''Error analyzing scores: argument of type ''
                  @ quoted ''NoneType'' @ '' is not iterable'') \<and>
   truthy infinite_scores \<and>
   tally_pass infinite_scores =
     Inl (OverflowError ''cannot convert float infinity to integer'') \<and>
   get_detailed_analysis infinite_scores =
     Inr (error_record ''Error analyzing scores: cannot convert float infinity to integer'')"
proof -
  let ?e = "TypeError (''argument of type '' @ quoted ''NoneType'' @ '' is not iterable'')"
  let ?o = "OverflowError ''cannot convert float infinity to integer''"
  have t1: "truthy unwrapped_none" and t2: "truthy infinite_scores"
    by (simp_all add: unwrapped_none_def infinite_scores_def)
  have p1: "count_pass unwrapped_none = Inl ?e"
    unfolding unwrapped_none_def by code_simp
  have p2: "tally_pass infinite_scores = Inl ?o"
    unfolding infinite_scores_def by code_simp
  from entry_points_never_raise [of unwrapped_none ?e] t1 p1
       entry_points_never_raise [of infinite_scores ?o] t2 p2
  show ?thesis by simp
qed

text \<open>
  C4: on an input that is empty or absent (any input that tests false),
  \<^verbatim>\<open>analyze_round_scoring\<close> returns \<^verbatim>\<open>True\<close> with the reason "No tee sheet data
  available". The pass is not run: on \<^verbatim>\<open>None\<close> it would raise.
\<close>

theorem no_data_is_flagged:
  "\<not> truthy x \<Longrightarrow> analyze_round_scoring x = Inr (True, ''No tee sheet data available'')"
  by (simp add: analyze_round_scoring_def)

theorem no_data_is_flagged_witness:
  "\<not> truthy (PList []) \<and>
   analyze_round_scoring (PList []) = Inr (True, ''No tee sheet data available'') \<and>
   \<not> truthy PNone \<and>
   count_pass PNone = Inl (TypeError (quoted ''NoneType'' @ '' object is not iterable'')) \<and>
   analyze_round_scoring PNone = Inr (True, ''No tee sheet data available'')"
proof -
  have empty: "\<not> truthy (PList [])" and absent: "\<not> truthy PNone"
    by simp_all
  have "count_pass PNone = Inl (TypeError (quoted ''NoneType'' @ '' object is not iterable''))"
    by (simp add: count_pass_def)
  with empty absent no_data_is_flagged [OF empty] no_data_is_flagged [OF absent]
  show ?thesis by simp
qed

text \<open>
  C8: every record that \<^verbatim>\<open>get_detailed_analysis\<close> returns, the one for no data and
  the one of the handler included, has \<^verbatim>\<open>incomplete_players\<close> equal to
  \<^verbatim>\<open>total_players - complete_players\<close>; and it returns a record on every input.
\<close>

theorem detailed_incomplete_is_difference:
  "\<exists>r. get_detailed_analysis x = Inr r \<and>
       incomplete_players r = total_players r - complete_players r"
proof (cases "truthy x")
  case False
  then show ?thesis
    by (simp add: get_detailed_analysis_def)
next
  case True
  show ?thesis
  proof (cases "tally_pass x")
    case (Inl e)
    with True show ?thesis
      by (simp add: get_detailed_analysis_def)
  next
    case (Inr k)
    obtain flagged reason where "analyze_round_scoring x = Inr (flagged, reason)"
      using analyze_returns [of x] by auto
    with Inr True show ?thesis
      by (cases k) (simp add: get_detailed_analysis_def)
  qed
qed

text \<open>
  C10: when the pass ends without exception, \<^verbatim>\<open>analyze_round_scoring\<close> does not
  return \<^verbatim>\<open>(False, "Unexpected scoring state")\<close>: the last return is unreachable.
\<close>

theorem fallback_unreachable:
  "count_pass x = Inr c \<Longrightarrow>
     analyze_round_scoring x \<noteq> Inr (False, ''Unexpected scoring state'')"
  by (simp add: analyze_round_scoring_def decide_not_fallback)

theorem fallback_unreachable_witness:
  "count_pass front_nine_only = Inr (1, 1, 0) \<and>
   analyze_round_scoring front_nine_only \<noteq> Inr (False, ''Unexpected scoring state'')"
proof -
  have pass: "count_pass front_nine_only = Inr (1, 1, 0)"
    unfolding front_nine_only_def by code_simp
  from pass fallback_unreachable [OF pass] show ?thesis by simp
qed

text \<open>
  C5, as the code has it: a slice with an element that is not skipped, on which
  \<^verbatim>\<open>int()\<close> raises \<^verbatim>\<open>ValueError\<close> or \<^verbatim>\<open>TypeError\<close>, and whose \<^verbatim>\<open>str\<close> is not
  blank after \<^verbatim>\<open>strip()\<close> and is not the text \<^verbatim>\<open>{}\<close>, is valid, when no element of
  the slice is an infinite float.
\<close>

theorem nonnumeric_score_makes_slice_valid:
  assumes "score \<in> set scores" and "\<not> skipped score"
    and "py_int score = Inl (ValueError m) \<or> py_int score = Inl (TypeError m)"
    and "\<not> str_blank score" and "\<not> str_is_braces score"
    and "\<forall>s \<in> set scores. s \<noteq> PFloat PosInf \<and> s \<noteq> PFloat NegInf"
  shows "has_valid_scores scores = Inr True"
  using assms(1,6)
proof (induction scores)
  case Nil
  then show ?case by simp
next
  case (Cons x xs)
  show ?case
  proof (cases "x = score")
    case True
    with assms(2-5) show ?thesis
      using has_valid_scores_hit [of score m xs] by simp
  next
    case False
    with Cons have "has_valid_scores xs = Inr True" by simp
    moreover from Cons.prems have "x \<noteq> PFloat PosInf" "x \<noteq> PFloat NegInf" by simp_all
    ultimately show ?thesis
      using has_valid_scores_step [of x xs] by auto
  qed
qed

theorem nonnumeric_score_makes_slice_valid_witness:
  "PStr ''NS'' \<in> set (replicate 8 PNone @ [PStr ''NS'']) \<and> \<not> skipped (PStr ''NS'') \<and>
   py_int (PStr ''NS'') =
     Inl (ValueError (''invalid literal for int() with base 10: '' @ quoted ''NS'')) \<and>
   \<not> str_blank (PStr ''NS'') \<and> \<not> str_is_braces (PStr ''NS'') \<and>
   has_valid_scores (replicate 8 PNone @ [PStr ''NS'']) = Inr True"
proof -
  let ?m = "''invalid literal for int() with base 10: '' @ quoted ''NS''"
  have a: "PStr ''NS'' \<in> set (replicate 8 PNone @ [PStr ''NS''])"
    by simp
  have b: "\<not> skipped (PStr ''NS'')"
    by (simp add: skipped_def)
  have c: "py_int (PStr ''NS'') = Inl (ValueError ?m)"
    by code_simp
  have d: "\<not> str_blank (PStr ''NS'')"
    by code_simp
  have e: "\<not> str_is_braces (PStr ''NS'')"
    by simp
  have f: "\<forall>s \<in> set (replicate 8 PNone @ [PStr ''NS'']). s \<noteq> PFloat PosInf \<and> s \<noteq> PFloat NegInf"
    by auto
  from c have c': "py_int (PStr ''NS'') = Inl (ValueError ?m) \<or> py_int (PStr ''NS'') = Inl (TypeError ?m)"
    by simp
  from nonnumeric_score_makes_slice_valid [OF a b c' d e f] a b c d e
  show ?thesis by simp
qed

text \<open>
  C5 as stated fails: a string of one space is not empty and is not \<^verbatim>\<open>{}\<close>, and
  \<^verbatim>\<open>int()\<close> refuses it, yet nine of them are no valid slice; and on an infinite float
  \<^verbatim>\<open>int()\<close> raises \<^verbatim>\<open>OverflowError\<close>, which leaves the function.
\<close>

theorem nonempty_string_form_counterexample:
  "length (replicate 9 (PStr '' '')) = 9 \<and>
   PStr '' '' \<in> set (replicate 9 (PStr '' '')) \<and>
   \<not> skipped (PStr '' '') \<and>
   py_int (PStr '' '') =
     Inl (ValueError (''invalid literal for int() with base 10: '' @ quoted '' '')) \<and>
   \<not> str_empty (PStr '' '') \<and> \<not> str_is_braces (PStr '' '') \<and>
   has_valid_scores (replicate 9 (PStr '' '')) = Inr False \<and>
   length (replicate 9 (PFloat PosInf)) = 9 \<and>
   PFloat PosInf \<in> set (replicate 9 (PFloat PosInf)) \<and>
   \<not> skipped (PFloat PosInf) \<and>
   py_int (PFloat PosInf) = Inl (OverflowError ''cannot convert float infinity to integer'') \<and>
   \<not> str_empty (PFloat PosInf) \<and> \<not> str_is_braces (PFloat PosInf) \<and>
   has_valid_scores (replicate 9 (PFloat PosInf)) =
     Inl (OverflowError ''cannot convert float infinity to integer'')"
proof -
  have "py_int (PStr '' '') =
     Inl (ValueError (''invalid literal for int() with base 10: '' @ quoted '' ''))"
    by code_simp
  moreover have "has_valid_scores (replicate 9 (PStr '' '')) = Inr False"
    by code_simp
  moreover have "has_valid_scores (replicate 9 (PFloat PosInf)) =
     Inl (OverflowError ''cannot convert float infinity to integer'')"
    by code_simp
  ultimately show ?thesis
    by (simp add: skipped_def)
qed

text \<open>
  C6, as the code has it: the first alias key, in the order \<^verbatim>\<open>players\<close>,
  \<^verbatim>\<open>player\<close>, \<^verbatim>\<open>pairing\<close>, \<^verbatim>\<open>members\<close>, whose value is a list or a dictionary
  gives the result (the list itself, or the dictionary in a list of one element); the keys
  before it are absent or have a value of another type.
\<close>

theorem first_usable_alias_key_wins:
  assumes keys: "player_keys = before @ key # after"
    and skip: "\<forall>k \<in> set before. passed_over kvs k"
    and hit: "map_of kvs key = Some v"
  shows "(\<forall>players. v = PList players \<longrightarrow> extract_players (PDict kvs) = Inr players) \<and>
         (is_dict v \<longrightarrow> extract_players (PDict kvs) = Inr [v])"
proof -
  have "extract_players (PDict kvs) = extract_players_from (key # after) (PDict kvs)"
    unfolding extract_players_def keys using skip by (rule extract_players_from_skip)
  with hit show ?thesis
    by (cases v) simp_all
qed

theorem first_usable_alias_key_wins_witness:
  "player_keys = [''players''] @ ''player'' # [''pairing'', ''members''] \<and>
   passed_over null_players_then_player ''players'' \<and>
   map_of null_players_then_player ''player'' = Some (PDict [(''name'', PStr ''X'')]) \<and>
   extract_players (PDict null_players_then_player) = Inr [PDict [(''name'', PStr ''X'')]]"
proof -
  have a: "player_keys = [''players''] @ ''player'' # [''pairing'', ''members'']"
    by (simp add: player_keys_def)
  have b: "\<forall>k \<in> set [''players'']. passed_over null_players_then_player k"
    by (simp add: passed_over_def null_players_then_player_def)
  have c: "map_of null_players_then_player ''player'' = Some (PDict [(''name'', PStr ''X'')])"
    by (simp add: null_players_then_player_def)
  from first_usable_alias_key_wins [OF a b c] a b c show ?thesis by simp
qed

text \<open>
  C6 as stated fails: two pairing groups with the same first present key
  \<^verbatim>\<open>players\<close> and the same value \<^verbatim>\<open>null\<close> under it give different results, since
  the loop falls through to \<^verbatim>\<open>player\<close>.
\<close>

theorem first_present_key_counterexample:
  "map_of null_players_then_player ''players'' = Some PNone \<and>
   map_of null_players_only ''players'' = Some PNone \<and>
   extract_players (PDict null_players_then_player) = Inr [PDict [(''name'', PStr ''X'')]] \<and>
   extract_players (PDict null_players_only) = Inr []"
proof -
  have "extract_players (PDict null_players_then_player) = Inr [PDict [(''name'', PStr ''X'')]]"
    unfolding null_players_then_player_def by code_simp
  moreover have "extract_players (PDict null_players_only) = Inr []"
    unfolding null_players_only_def by code_simp
  ultimately show ?thesis
    by (simp add: null_players_then_player_def null_players_only_def)
qed

text \<open>
  C7: take any tee sheet and any player record in the players list of one of its
  entries, and compare with the same tee sheet without that record, on which the pass
  ends without exception. With fewer than 18 scores, \<^verbatim>\<open>analyze_round_scoring\<close> and
  \<^verbatim>\<open>get_detailed_analysis\<close> count one player more and the same front-9, back-9 and
  complete counts. With 18 or more scores, the front-9 count grows by one exactly when
  the elements at indices 0 to 8 hold a valid score, the back-9 count exactly when those
  at indices 9 to 17 do, whatever follows index 17.
\<close>

theorem player_contribution_by_score_length:
  assumes items: "is_dict item" "is_dict item'"
    and with_player: "players_of_item item = Inr (ps @ PDict kvs # qs)"
    and without_player: "players_of_item item' = Inr (ps @ qs)"
    and scores: "extract_scores (PDict kvs) = Inr scores"
    and halves:
      "length scores < 18 \<and> \<not> hf \<and> \<not> hb \<or>
       18 \<le> length scores \<and> has_valid_scores (map ((!) scores) [0..<9]) = Inr hf \<and>
       has_valid_scores (map ((!) scores) [9..<18]) = Inr hb"
    and rest: "tally_pass (PList (before @ item' # after)) = Inr (n, f, b, c)"
  shows "count_pass (PList (before @ item' # after)) = Inr (n, f, b) \<and>
         count_pass (PList (before @ item # after)) =
           Inr (n + 1, if hf then f + 1 else f, if hb then b + 1 else b) \<and>
         analyze_round_scoring (PList (before @ item # after)) =
           Inr (decide (n + 1, if hf then f + 1 else f, if hb then b + 1 else b)) \<and>
         get_detailed_analysis (PList (before @ item # after)) =
           Inr \<lparr>total_players = n + 1,
                front_9_players = (if hf then f + 1 else f),
                back_9_players = (if hb then b + 1 else b),
                complete_players = (if hf \<and> hb then c + 1 else c),
                incomplete_players = n + 1 - (if hf \<and> hb then c + 1 else c),
                is_flagged =
                  fst (decide (n + 1, if hf then f + 1 else f, if hb then b + 1 else b)),
                flag_reason =
                  snd (decide (n + 1, if hf then f + 1 else f, if hb then b + 1 else b))\<rparr>"
proof -
  let ?with = "PList (before @ item # after)"
  let ?without = "PList (before @ item' # after)"
  let ?counts = "(n + 1, if hf then f + 1 else f, if hb then b + 1 else b)"
  have step: "tally_player k (PDict kvs) = Inr (add_player hf hb k)" for k
    using scores halves by (rule tally_player_step)
  have tally: "tally_pass ?with = Inr (add_player hf hb (n, f, b, c))"
    using tally_pass_insert_player [OF items with_player without_player step, of before after]
      rest by simp
  have c0: "count_pass ?without = Inr (n, f, b)"
    using tally_pass_counts [of ?without] rest by simp
  have c1: "count_pass ?with = Inr ?counts"
    using tally_pass_counts [of ?with] tally by simp
  have t: "truthy ?with"
    by simp
  from t c1 have a: "analyze_round_scoring ?with = Inr (decide ?counts)"
    unfolding analyze_round_scoring_def by simp
  obtain flagged reason where d: "decide ?counts = (flagged, reason)"
    by (cases "decide ?counts")
  from t tally a d have "get_detailed_analysis ?with =
      Inr \<lparr>total_players = n + 1,
           front_9_players = (if hf then f + 1 else f),
           back_9_players = (if hb then b + 1 else b),
           complete_players = (if hf \<and> hb then c + 1 else c),
           incomplete_players = n + 1 - (if hf \<and> hb then c + 1 else c),
           is_flagged = flagged, flag_reason = reason\<rparr>"
    unfolding get_detailed_analysis_def by simp
  with c0 c1 a d show ?thesis by simp
qed


theorem player_contribution_by_score_length_witness:
  "is_dict (wrapped_group [front_nine_player, PDict seventeen_scores, no_scores_player]) \<and>
   is_dict (wrapped_group [front_nine_player, PDict back_nine_and_more, no_scores_player]) \<and>
   is_dict (wrapped_group [front_nine_player, no_scores_player]) \<and>
   players_of_item (wrapped_group [front_nine_player, PDict seventeen_scores, no_scores_player])
     = Inr ([front_nine_player] @ PDict seventeen_scores # [no_scores_player]) \<and>
   players_of_item (wrapped_group [front_nine_player, PDict back_nine_and_more, no_scores_player])
     = Inr ([front_nine_player] @ PDict back_nine_and_more # [no_scores_player]) \<and>
   players_of_item (wrapped_group [front_nine_player, no_scores_player])
     = Inr ([front_nine_player] @ [no_scores_player]) \<and>
   extract_scores (PDict seventeen_scores) = Inr (replicate 17 (PInt 4)) \<and>
   length (replicate 17 (PInt 4)) < 18 \<and>
   extract_scores (PDict back_nine_and_more)
     = Inr (replicate 9 PNone @ replicate 9 (PInt 3) @ [PInt 7]) \<and>
   18 \<le> length (replicate 9 PNone @ replicate 9 (PInt 3) @ [PInt 7]) \<and>
   has_valid_scores
     (map ((!) (replicate 9 PNone @ replicate 9 (PInt 3) @ [PInt 7])) [0..<9]) = Inr False \<and>
   has_valid_scores
     (map ((!) (replicate 9 PNone @ replicate 9 (PInt 3) @ [PInt 7])) [9..<18]) = Inr True \<and>
   tally_pass
     (PList ([full_card_group] @ wrapped_group [front_nine_player, no_scores_player]
        # [PInt 7, back_nine_group])) = Inr (4, 2, 2, 1) \<and>
   analyze_round_scoring
     (PList ([full_card_group]
        @ wrapped_group [front_nine_player, PDict seventeen_scores, no_scores_player]
        # [PInt 7, back_nine_group]))
     = Inr (True, ''Complete scoring detected: F9=2, B9=2 players'') \<and>
   get_detailed_analysis
     (PList ([full_card_group]
        @ wrapped_group [front_nine_player, PDict seventeen_scores, no_scores_player]
        # [PInt 7, back_nine_group]))
     = Inr \<lparr>total_players = 5, front_9_players = 2, back_9_players = 2,
            complete_players = 1, incomplete_players = 4, is_flagged = True,
            flag_reason = ''Complete scoring detected: F9=2, B9=2 players''\<rparr> \<and>
   analyze_round_scoring
     (PList ([full_card_group]
        @ wrapped_group [front_nine_player, PDict back_nine_and_more, no_scores_player]
        # [PInt 7, back_nine_group]))
     = Inr (True, ''Complete scoring detected: F9=2, B9=3 players'') \<and>
   get_detailed_analysis
     (PList ([full_card_group]
        @ wrapped_group [front_nine_player, PDict back_nine_and_more, no_scores_player]
        # [PInt 7, back_nine_group]))
     = Inr \<lparr>total_players = 5, front_9_players = 2, back_9_players = 3,
            complete_players = 1, incomplete_players = 4, is_flagged = True,
            flag_reason = ''Complete scoring detected: F9=2, B9=3 players''\<rparr>"
proof -
  let ?short = "wrapped_group [front_nine_player, PDict seventeen_scores, no_scores_player]"
  let ?long = "wrapped_group [front_nine_player, PDict back_nine_and_more, no_scores_player]"
  let ?without = "wrapped_group [front_nine_player, no_scores_player]"
  let ?scores = "replicate 9 PNone @ replicate 9 (PInt 3) @ [PInt 7]"
  have d1: "is_dict ?short" and d2: "is_dict ?long" and d3: "is_dict ?without"
    by (simp_all add: wrapped_group_def)
  have p1: "players_of_item ?short
      = Inr ([front_nine_player] @ PDict seventeen_scores # [no_scores_player])"
    by code_simp
  have p2: "players_of_item ?long
      = Inr ([front_nine_player] @ PDict back_nine_and_more # [no_scores_player])"
    by code_simp
  have p3: "players_of_item ?without = Inr ([front_nine_player] @ [no_scores_player])"
    by code_simp
  have e1: "extract_scores (PDict seventeen_scores) = Inr (replicate 17 (PInt 4))"
    by code_simp
  have e2: "extract_scores (PDict back_nine_and_more) = Inr ?scores"
    by code_simp
  have l1: "length (replicate 17 (PInt 4)) < 18" and l2: "18 \<le> length ?scores"
    by simp_all
  have f: "has_valid_scores (map ((!) ?scores) [0..<9]) = Inr False"
    by code_simp
  have b: "has_valid_scores (map ((!) ?scores) [9..<18]) = Inr True"
    by code_simp
  have r: "tally_pass (PList ([full_card_group] @ ?without # [PInt 7, back_nine_group]))
      = Inr (4, 2, 2, 1)"
    by code_simp
  have h1: "length (replicate 17 (PInt 4)) < 18 \<and> \<not> False \<and> \<not> False \<or>
      18 \<le> length (replicate 17 (PInt 4)) \<and>
      has_valid_scores (map ((!) (replicate 17 (PInt 4))) [0..<9]) = Inr False \<and>
      has_valid_scores (map ((!) (replicate 17 (PInt 4))) [9..<18]) = Inr False"
    using l1 by simp
  have h2: "length ?scores < 18 \<and> \<not> False \<and> \<not> True \<or>
      18 \<le> length ?scores \<and> has_valid_scores (map ((!) ?scores) [0..<9]) = Inr False \<and>
      has_valid_scores (map ((!) ?scores) [9..<18]) = Inr True"
    using l2 f b by simp
  have s: "str_int 2 = ''2''" "str_int 3 = ''3''"
    by code_simp+
  from player_contribution_by_score_length [OF d1 d3 p1 p3 e1 h1 r]
       player_contribution_by_score_length [OF d2 d3 p2 p3 e2 h2 r]
       d1 d2 d3 p1 p2 p3 e1 e2 l1 l2 f b r s
  show ?thesis by simp
qed

end
